theory Spec2Isabelle
  imports Main "HOL-Library.AList"
begin

section \<open>Strings of the source language\<close>

text \<open>
  A Python \<open>str\<close> is a sequence of code points. The model uses \<^typ>\<open>string\<close>, and reads
  every \<^typ>\<open>char\<close> as one code point in the range U+0000 .. U+00FF. The three character
  classes below are the ones CPython uses in that range.
\<close>

definition isspace :: "char \<Rightarrow> bool" where
  \<comment> \<open>\<open>str.isspace\<close> on one character; also what \<open>str.strip()\<close> removes and what \<open>\s\<close> matches.\<close>
  "isspace c = (c \<in> set [CHR 0x09, CHR 0x0A, CHR 0x0B, CHR 0x0C, CHR 0x0D,
                           CHR 0x1C, CHR 0x1D, CHR 0x1E, CHR 0x1F, CHR 0x20,
                           CHR 0x85, CHR 0xA0])"

definition islinebreak :: "char \<Rightarrow> bool" where
  \<comment> \<open>the line boundaries of \<open>str.splitlines()\<close>\<close>
  "islinebreak c = (c \<in> set [CHR 0x0A, CHR 0x0B, CHR 0x0C, CHR 0x0D,
                               CHR 0x1C, CHR 0x1D, CHR 0x1E, CHR 0x85])"

definition uppercase :: string where
  \<comment> \<open>the code points below 256 that \<open>str.lower()\<close> changes: A-Z, and U+00C0 .. U+00DE without U+00D7\<close>
  "uppercase = ''ABCDEFGHIJKLMNOPQRSTUVWXYZ'' @
     [CHR 0xC0, CHR 0xC1, CHR 0xC2, CHR 0xC3, CHR 0xC4, CHR 0xC5, CHR 0xC6, CHR 0xC7,
      CHR 0xC8, CHR 0xC9, CHR 0xCA, CHR 0xCB, CHR 0xCC, CHR 0xCD, CHR 0xCE, CHR 0xCF,
      CHR 0xD0, CHR 0xD1, CHR 0xD2, CHR 0xD3, CHR 0xD4, CHR 0xD5, CHR 0xD6,
      CHR 0xD8, CHR 0xD9, CHR 0xDA, CHR 0xDB, CHR 0xDC, CHR 0xDD, CHR 0xDE]"

definition lowercase :: string where
  \<comment> \<open>their images, position by position: a-z, and U+00E0 .. U+00FE without U+00F7\<close>
  "lowercase = ''abcdefghijklmnopqrstuvwxyz'' @
     [CHR 0xE0, CHR 0xE1, CHR 0xE2, CHR 0xE3, CHR 0xE4, CHR 0xE5, CHR 0xE6, CHR 0xE7,
      CHR 0xE8, CHR 0xE9, CHR 0xEA, CHR 0xEB, CHR 0xEC, CHR 0xED, CHR 0xEE, CHR 0xEF,
      CHR 0xF0, CHR 0xF1, CHR 0xF2, CHR 0xF3, CHR 0xF4, CHR 0xF5, CHR 0xF6,
      CHR 0xF8, CHR 0xF9, CHR 0xFA, CHR 0xFB, CHR 0xFC, CHR 0xFD, CHR 0xFE]"

definition lower_char :: "char \<Rightarrow> char" where
  "lower_char c = (case map_of (zip uppercase lowercase) c of Some d \<Rightarrow> d | None \<Rightarrow> c)"

definition lower :: "string \<Rightarrow> string" where
  \<comment> \<open>\<open>str.lower()\<close>\<close>
  "lower s = map lower_char s"

definition strip :: "string \<Rightarrow> string" where
  \<comment> \<open>\<open>str.strip()\<close> with no argument\<close>
  "strip s = rev (dropWhile isspace (rev (dropWhile isspace s)))"

definition startswith :: "string \<Rightarrow> string \<Rightarrow> bool" where
  "startswith s p = (take (length p) s = p)"

fun splitlines_from :: "string \<Rightarrow> string \<Rightarrow> string list" where
  "splitlines_from cur [] = (if cur = [] then [] else [cur])"
| "splitlines_from cur [c] =
     (if islinebreak c then [cur] else [cur @ [c]])"
| "splitlines_from cur (c # d # cs) =
     (if c = CHR 0x0D \<and> d = CHR 0x0A then cur # splitlines_from [] cs
      else if islinebreak c then cur # splitlines_from [] (d # cs)
      else splitlines_from (cur @ [c]) (d # cs))"

definition splitlines :: "string \<Rightarrow> string list" where
  \<comment> \<open>\<open>str.splitlines()\<close>: no line ends are kept, and a final empty line is not produced\<close>
  "splitlines s = splitlines_from [] s"

section \<open>The parser\<close>

datatype py_error = KeyError string

type_synonym record_dict = "(string \<times> string) list"

definition header_mapping :: "(string \<times> string) list" where
  "header_mapping =
    [(''Required knowledge and skills'', ''QA_Knowledge-and-skills''),
     (''Key vocabulary terms'', ''QA_Key-Vocabulary''),
     (''Common misconceptions or challenges'', ''QA_Common-misconceptions''),
     (''Vocabulary Terms'', ''VA_Vocabulary-Terms''),
     (''Definitions'', ''VA_Definitions''),
     (''Special Attention'', ''VA_Special-Attention''),
     (''Teaching Approaches'', ''IR_Teaching-Approaches''),
     (''Scaffolding'', ''IR_Scaffolding''),
     (''Sequencing'', ''IR_Sequencing'')]"

definition initial_result :: record_dict where
  \<comment> \<open>\<open>{value: "" for value in header_mapping.values()}\<close>\<close>
  "initial_result = foldl (\<lambda>d v. AList.update v [] d) [] (map snd header_mapping)"

subsection \<open>The header pattern\<close>

text \<open>
  \<open>^\s*(?P<header>.+?):\s*$\<close>, matched at the start of the string. The final \<open>\s*$\<close>
  succeeds exactly when the rest of the string is whitespace (a newline before the end is
  whitespace as well). \<open>.\<close> matches every character but the newline U+000A. The lazy
  \<open>.+?\<close> takes one character and then, at each position, first tries to finish the
  match and only otherwise takes one character more. The greedy \<open>\s*\<close> at the front
  first takes all leading whitespace and gives characters back one by one when the
  rest fails.
\<close>

fun lazy_header :: "string \<Rightarrow> string \<Rightarrow> string option" where
  "lazy_header acc [] = None"
| "lazy_header acc (c # cs) =
     (if c = CHR '':'' \<and> list_all isspace cs then Some acc
      else if c = CHR 0x0A then None
      else lazy_header (acc @ [c]) cs)"

definition header_group :: "string \<Rightarrow> string option" where
  \<comment> \<open>\<open>(?P<header>.+?):\s*$\<close> from the start of the given string\<close>
  "header_group s = (case s of [] \<Rightarrow> None
      | c # cs \<Rightarrow> if c = CHR 0x0A then None else lazy_header [c] cs)"

fun header_from :: "nat \<Rightarrow> string \<Rightarrow> string option" where
  "header_from 0 s = header_group s"
| "header_from (Suc k) s =
     (case header_group (drop (Suc k) s) of Some h \<Rightarrow> Some h | None \<Rightarrow> header_from k s)"

definition header_pattern_match :: "string \<Rightarrow> string option" where
  \<comment> \<open>\<open>header_pattern.match(line)\<close>, giving \<open>group("header")\<close> when there is a match\<close>
  "header_pattern_match s = header_from (length (takeWhile isspace s)) s"

subsection \<open>The loop\<close>

fun find_header :: "(string \<times> string) list \<Rightarrow> string \<Rightarrow> string option" where
  \<comment> \<open>the \<open>for ... else\<close> over \<open>header_mapping.items()\<close>: the first label equal up to case, else \<open>None\<close>\<close>
  "find_header [] header_text = None"
| "find_header ((expected_header, csv_key) # rest) header_text =
     (if lower header_text = lower expected_header then Some csv_key
      else find_header rest header_text)"

type_synonym loop_state = "record_dict \<times> string option"

definition loop_body :: "loop_state \<Rightarrow> string \<Rightarrow> py_error + loop_state" where
  "loop_body st line0 =
     (let parsed_result = fst st; current_key = snd st; line = strip line0 in
      if line = [] then Inr (parsed_result, current_key)
      else case header_pattern_match line of
        Some header \<Rightarrow> Inr (parsed_result, find_header header_mapping (strip header))
      | None \<Rightarrow>
         (let line = (if startswith line ''-'' \<or> startswith line ''*''
                      then strip (drop 1 line) else line)
          in case current_key of
               None \<Rightarrow> Inr (parsed_result, current_key)
             | Some k \<Rightarrow>
                 if k = [] then Inr (parsed_result, current_key)
                 else (case map_of parsed_result k of
                         None \<Rightarrow> Inl (KeyError k)
                       | Some v \<Rightarrow>
                           if v \<noteq> []
                           then Inr (AList.update k (v @ [CHR 0x0A] @ line) parsed_result, current_key)
                           else Inr (AList.update k line parsed_result, current_key))))"

fun loop :: "loop_state \<Rightarrow> string list \<Rightarrow> py_error + loop_state" where
  "loop st [] = Inr st"
| "loop st (line # rest) =
     (case loop_body st line of Inl e \<Rightarrow> Inl e | Inr st' \<Rightarrow> loop st' rest)"

definition parse_analysis_output :: "string \<Rightarrow> py_error + record_dict" where
  "parse_analysis_output output_text =
     (case loop (initial_result, None) (splitlines output_text) of
        Inl e \<Rightarrow> Inl e
      | Inr st \<Rightarrow> Inr (map (\<lambda>(k, v). (k, strip v)) (fst st)))"

subsection \<open>The field names of the export\<close>

definition csv_headers :: "string list" where
  \<comment> \<open>the list \<open>csv_headers\<close> of \<open>main\<close>, the column order of the CSV file\<close>
  "csv_headers =
    [''QA_Knowledge-and-skills'', ''QA_Key-Vocabulary'', ''QA_Common-misconceptions'',
     ''VA_Vocabulary-Terms'', ''VA_Definitions'', ''VA_Special-Attention'',
     ''IR_Teaching-Approaches'', ''IR_Scaffolding'', ''IR_Sequencing'']"

section \<open>Notions used to state the properties\<close>

definition names_label :: "string \<Rightarrow> bool" where
  \<comment> \<open>the line, trimmed, is a label followed by a colon, and the trimmed label is one of
      the nine recognized labels up to case\<close>
  "names_label l =
     (strip l \<noteq> [] \<and> last (strip l) = CHR '':'' \<and>
      lower (strip (butlast (strip l))) \<in> set (map (\<lambda>p. lower (fst p)) header_mapping))"

definition state_ok :: "loop_state \<Rightarrow> bool" where
  \<comment> \<open>the loop invariant: the dictionary has the nine keys, and the current key is one of them\<close>
  "state_ok st =
     (map fst (fst st) = csv_headers \<and>
      (case snd st of None \<Rightarrow> True | Some k \<Rightarrow> k \<in> set csv_headers))"

section \<open>Facts about the string operations\<close>

lemma isspace_newline: "isspace (CHR 0x0A)"
  by (simp add: isspace_def)

lemma colon_not_space: "\<not> isspace CHR '':''"
  by (simp add: isspace_def)

lemma dropWhile_keep: "xs = [] \<or> \<not> P (hd xs) \<Longrightarrow> dropWhile P xs = xs"
  by (cases xs) auto

lemma set_strip: "set (strip s) \<subseteq> set s"
  unfolding strip_def by (auto dest!: set_dropWhileD)

lemma last_strip: "strip s \<noteq> [] \<Longrightarrow> \<not> isspace (last (strip s))"
  unfolding strip_def by (simp add: last_rev hd_dropWhile)

lemma hd_strip: "strip s \<noteq> [] \<Longrightarrow> \<not> isspace (hd (strip s))"
proof -
  assume ne: "strip s \<noteq> []"
  define t where "t = dropWhile isspace s"
  have "t \<noteq> []"
  proof
    assume "t = []"
    then have "strip s = []" by (simp add: strip_def t_def[symmetric])
    with ne show False by simp
  qed
  then obtain x t' where t: "t = x # t'" by (cases t) auto
  have "\<not> isspace (hd (dropWhile isspace s))"
    by (rule hd_dropWhile) (use t in \<open>simp add: t_def\<close>)
  then have nx: "\<not> isspace x" using t by (simp add: t_def)
  have "\<exists>zs. dropWhile isspace (rev t' @ [x]) = zs @ [x]"
    using nx by (simp add: dropWhile_append)
  then obtain zs where "dropWhile isspace (rev t) = zs @ [x]" using t by auto
  then have "strip s = x # rev zs" by (simp add: strip_def t_def[symmetric])
  with nx show ?thesis by simp
qed

lemma strip_ident: "s = [] \<or> (\<not> isspace (hd s) \<and> \<not> isspace (last s)) \<Longrightarrow> strip s = s"
proof (cases "s = []")
  case True
  then show ?thesis by (simp add: strip_def)
next
  case False
  assume "s = [] \<or> (\<not> isspace (hd s) \<and> \<not> isspace (last s))"
  with False have a: "\<not> isspace (hd s)" and b: "\<not> isspace (last s)" by auto
  from a have "dropWhile isspace s = s" by (simp add: dropWhile_keep)
  moreover have "dropWhile isspace (rev s) = rev s"
    using b False by (simp add: dropWhile_keep hd_rev)
  ultimately show ?thesis by (simp add: strip_def)
qed

lemma strip_idem: "strip (strip s) = strip s"
  by (rule strip_ident) (use hd_strip last_strip in blast)


lemma splitlines_from_no_break:
  "l \<in> set (splitlines_from cur s) \<Longrightarrow> \<forall>c\<in>set cur. \<not> islinebreak c \<Longrightarrow> \<forall>c\<in>set l. \<not> islinebreak c"
proof (induction cur s rule: splitlines_from.induct)
  case (1 cur)
  then show ?case by (simp split: if_splits)
next
  case (2 cur c)
  then show ?case by (simp split: if_splits)
next
  case (3 cur c d cs)
  show ?case
  proof (cases "c = CHR 0x0D \<and> d = CHR 0x0A")
    case True
    with "3.prems"(1) have "l = cur \<or> l \<in> set (splitlines_from [] cs)" by simp
    then show ?thesis
    proof
      assume "l = cur"
      with "3.prems"(2) show ?thesis by simp
    next
      assume "l \<in> set (splitlines_from [] cs)"
      then show ?thesis using "3.IH"(1)[OF True] by simp
    qed
  next
    case F: False
    show ?thesis
    proof (cases "islinebreak c")
      case True
      with F "3.prems"(1) have "l = cur \<or> l \<in> set (splitlines_from [] (d # cs))"
        by (simp only: splitlines_from.simps if_False if_True set_simps insert_iff)
      then show ?thesis
      proof
        assume "l = cur"
        with "3.prems"(2) show ?thesis by simp
      next
        assume "l \<in> set (splitlines_from [] (d # cs))"
        then show ?thesis using "3.IH"(2)[OF F True] by simp
      qed
    next
      case False
      with F "3.prems"(1) have "l \<in> set (splitlines_from (cur @ [c]) (d # cs))"
        by (simp only: splitlines_from.simps if_False)
      moreover have "\<forall>x\<in>set (cur @ [c]). \<not> islinebreak x"
        using False "3.prems"(2) by simp
      ultimately show ?thesis using "3.IH"(3)[OF F False] by blast
    qed
  qed
qed

lemma splitlines_no_newline: "l \<in> set (splitlines s) \<Longrightarrow> CHR 0x0A \<notin> set l"
proof -
  assume "l \<in> set (splitlines s)"
  then have "\<forall>c\<in>set l. \<not> islinebreak c"
    using splitlines_from_no_break[of l "[]" s] by (simp add: splitlines_def)
  moreover have "islinebreak (CHR 0x0A)" by (simp add: islinebreak_def)
  ultimately show ?thesis by blast
qed

section \<open>Facts about the parser\<close>

lemma initial_result_eq: "initial_result = map (\<lambda>k. (k, [])) csv_headers"
  by (simp add: initial_result_def header_mapping_def csv_headers_def)

lemma find_header_Some:
  "find_header m h = Some k \<Longrightarrow> \<exists>L. (L, k) \<in> set m \<and> lower h = lower L"
  by (induction m h rule: find_header.induct) (auto split: if_splits)

lemma find_header_None:
  "find_header m h = None \<longleftrightarrow> lower h \<notin> set (map (\<lambda>p. lower (fst p)) m)"
  by (induction m h rule: find_header.induct) auto

lemma header_mapping_values: "snd ` set header_mapping = set csv_headers"
  by (simp add: header_mapping_def csv_headers_def)

lemma find_header_key: "find_header header_mapping h = Some k \<Longrightarrow> k \<in> set csv_headers"
  using find_header_Some[of header_mapping h k] header_mapping_values by force

lemma lazy_header_stripped:
  "cs \<noteq> [] \<Longrightarrow> \<not> isspace (last cs) \<Longrightarrow> CHR 0x0A \<notin> set cs \<Longrightarrow>
   lazy_header acc cs = (if last cs = CHR '':'' then Some (acc @ butlast cs) else None)"
proof (induction cs arbitrary: acc)
  case Nil
  then show ?case by simp
next
  case (Cons c cs)
  show ?case
  proof (cases "cs = []")
    case True
    then show ?thesis using Cons.prems by simp
  next
    case False
    then have "\<not> list_all isspace cs"
      using Cons.prems(2) by (auto simp: list_all_iff)
    moreover have "c \<noteq> CHR 0x0A" using Cons.prems(3) by auto
    moreover have "lazy_header (acc @ [c]) cs =
        (if last cs = CHR '':'' then Some ((acc @ [c]) @ butlast cs) else None)"
      using Cons.prems False by (intro Cons.IH) auto
    ultimately show ?thesis using False by simp
  qed
qed

lemma header_pattern_match_stripped:
  assumes "l \<noteq> []" "\<not> isspace (hd l)" "\<not> isspace (last l)" "CHR 0x0A \<notin> set l"
  shows "header_pattern_match l =
         (if 2 \<le> length l \<and> last l = CHR '':'' then Some (butlast l) else None)"
proof -
  from assms obtain c cs where l: "l = c # cs" by (cases l) auto
  with assms have "takeWhile isspace l = []" by simp
  then have "header_pattern_match l = header_group l"
    by (simp add: header_pattern_match_def)
  also have "\<dots> = (if 2 \<le> length l \<and> last l = CHR '':'' then Some (butlast l) else None)"
  proof (cases "cs = []")
    case True
    then show ?thesis using l assms by (simp add: header_group_def)
  next
    case False
    have c: "c \<noteq> CHR 0x0A" using l assms(4) by auto
    have "lazy_header [c] cs = (if last cs = CHR '':'' then Some ([c] @ butlast cs) else None)"
      using False l assms by (intro lazy_header_stripped) auto
    moreover have "2 \<le> length l" using False l by (cases cs) auto
    ultimately show ?thesis using l c False by (simp add: header_group_def)
  qed
  finally show ?thesis .
qed

lemma header_pattern_match_line:
  assumes "CHR 0x0A \<notin> set l" "strip l \<noteq> []"
  shows "header_pattern_match (strip l) =
         (if 2 \<le> length (strip l) \<and> last (strip l) = CHR '':''
          then Some (butlast (strip l)) else None)"
proof (rule header_pattern_match_stripped)
  show "strip l \<noteq> []" by fact
  show "\<not> isspace (hd (strip l))" using assms(2) by (rule hd_strip)
  show "\<not> isspace (last (strip l))" using assms(2) by (rule last_strip)
  show "CHR 0x0A \<notin> set (strip l)" using assms(1) set_strip by blast
qed

lemma loop_body_ok: "state_ok st \<Longrightarrow> \<exists>st'. loop_body st l = Inr st' \<and> state_ok st'"
proof -
  assume ok: "state_ok st"
  obtain pr ck where st: "st = (pr, ck)" by (cases st)
  from ok st have keys: "map fst pr = csv_headers" by (simp add: state_ok_def)
  have upd: "state_ok (AList.update k v pr, Some k)" if "k \<in> set csv_headers" for k v
    using that keys by (simp add: state_ok_def update_keys)
  have look: "\<exists>v. map_of pr k = Some v" if "k \<in> set csv_headers" for k
  proof -
    from that keys have "k \<in> fst ` set pr" by (metis set_map)
    then show ?thesis by (cases "map_of pr k") (auto simp: map_of_eq_None_iff)
  qed
  show ?thesis
  proof (cases "strip l = []")
    case True
    then show ?thesis using ok st by (simp add: loop_body_def)
  next
    case ne: False
    show ?thesis
    proof (cases "header_pattern_match (strip l)")
      case (Some h)
      have "state_ok (pr, find_header header_mapping (strip h))"
        using keys find_header_key by (auto simp: state_ok_def split: option.splits)
      then show ?thesis using ne Some st by (simp add: loop_body_def)
    next
      case None
      show ?thesis
      proof (cases ck)
        case N: None
        then show ?thesis using ne None st ok by (simp add: loop_body_def)
      next
        case (Some k)
        with ok st have kin: "k \<in> set csv_headers" by (simp add: state_ok_def)
        from look[OF kin] obtain v where v: "map_of pr k = Some v" ..
        have kne: "k \<noteq> []" using kin by (auto simp: csv_headers_def)
        show ?thesis using ne None st Some v upd[OF kin] kne
          by (simp add: loop_body_def Let_def)
      qed
    qed
  qed
qed

lemma loop_ok: "state_ok st \<Longrightarrow> \<exists>st'. loop st ls = Inr st' \<and> state_ok st'"
proof (induction ls arbitrary: st)
  case Nil
  then show ?case by simp
next
  case (Cons l ls)
  from loop_body_ok[OF Cons.prems] obtain st1
    where s1: "loop_body st l = Inr st1" and ok1: "state_ok st1" by blast
  from Cons.IH[OF ok1] s1 show ?case by simp
qed

lemma initial_ok: "state_ok (initial_result, None)"
  by (simp add: state_ok_def initial_result_eq comp_def)

lemma parse_returns:
  "\<exists>pr. parse_analysis_output s = Inr (map (\<lambda>(k, v). (k, strip v)) pr) \<and> map fst pr = csv_headers"
proof -
  from loop_ok[OF initial_ok] obtain st'
    where l: "loop (initial_result, None) (splitlines s) = Inr st'" and ok: "state_ok st'"
    by blast
  then show ?thesis by (auto simp: parse_analysis_output_def state_ok_def)
qed

lemma loop_body_blank: "strip l = [] \<Longrightarrow> loop_body st l = Inr st"
  by (simp add: loop_body_def)

lemma loop_body_header_line:
  assumes "CHR 0x0A \<notin> set l" "strip l = h @ '':''" "h \<noteq> []"
  shows "loop_body (pr, ck) l = Inr (pr, find_header header_mapping (strip h))"
proof -
  from assms(2) have ne: "strip l \<noteq> []" by simp
  have "2 \<le> length (strip l)" using assms(2,3) by (cases h) auto
  then have "header_pattern_match (strip l) = Some h"
    using header_pattern_match_line[OF assms(1) ne] assms(2) by simp
  then show ?thesis using ne by (simp add: loop_body_def)
qed

lemma not_header_line:
  assumes "CHR 0x0A \<notin> set l" "strip l \<noteq> []" "last (strip l) \<noteq> CHR '':'' \<or> strip l = '':''"
  shows "header_pattern_match (strip l) = None"
  using header_pattern_match_line[OF assms(1,2)] assms(3) by auto

lemma loop_body_content_line:
  assumes "CHR 0x0A \<notin> set l" "strip l \<noteq> []" "last (strip l) \<noteq> CHR '':'' \<or> strip l = '':''"
    and "map_of pr k = Some v" "k \<noteq> []"
  shows "loop_body (pr, Some k) l =
     Inr (AList.update k
            (if v = [] then (if hd (strip l) = CHR ''-'' \<or> hd (strip l) = CHR ''*''
                             then strip (tl (strip l)) else strip l)
             else v @ [CHR 0x0A] @ (if hd (strip l) = CHR ''-'' \<or> hd (strip l) = CHR ''*''
                                   then strip (tl (strip l)) else strip l)) pr, Some k)"
proof -
  obtain c cs where s: "strip l = c # cs" using assms(2) by (cases "strip l") auto
  have "header_pattern_match (c # cs) = None"
    using not_header_line[OF assms(1,2,3)] s by simp
  then show ?thesis using assms(4,5) s
    by (simp add: loop_body_def startswith_def drop_Suc)
qed

lemma loop_body_no_label:
  assumes "CHR 0x0A \<notin> set l" "\<not> names_label l"
  shows "loop_body (pr, None) l = Inr (pr, None)"
proof (cases "strip l = []")
  case True
  then show ?thesis by (rule loop_body_blank)
next
  case ne: False
  show ?thesis
  proof (cases "2 \<le> length (strip l) \<and> last (strip l) = CHR '':''")
    case True
    then have m: "header_pattern_match (strip l) = Some (butlast (strip l))"
      using header_pattern_match_line[OF assms(1) ne] by simp
    have "find_header header_mapping (strip (butlast (strip l))) = None"
      using assms(2) ne True by (simp add: names_label_def find_header_None)
    then show ?thesis using ne m by (simp add: loop_body_def)
  next
    case False
    then have "header_pattern_match (strip l) = None"
      using header_pattern_match_line[OF assms(1) ne] by simp
    then show ?thesis using ne by (simp add: loop_body_def)
  qed
qed

lemma loop_no_label:
  "\<forall>l\<in>set ls. CHR 0x0A \<notin> set l \<and> \<not> names_label l \<Longrightarrow> loop (pr, None) ls = Inr (pr, None)"
  by (induction ls) (simp_all add: loop_body_no_label)

lemma strip_Nil: "strip [] = []"
  by (simp add: strip_def)

lemma all_empty: "map (\<lambda>(k, v). (k, strip v)) initial_result =
   [(''QA_Knowledge-and-skills'', []), (''QA_Key-Vocabulary'', []),
    (''QA_Common-misconceptions'', []), (''VA_Vocabulary-Terms'', []),
    (''VA_Definitions'', []), (''VA_Special-Attention'', []),
    (''IR_Teaching-Approaches'', []), (''IR_Scaffolding'', []),
    (''IR_Sequencing'', [])]"
  by (simp add: initial_result_eq csv_headers_def strip_Nil)

lemma lower_labels:
  "map (\<lambda>p. (lower (fst p), snd p)) header_mapping =
    [(''required knowledge and skills'', ''QA_Knowledge-and-skills''),
     (''key vocabulary terms'', ''QA_Key-Vocabulary''),
     (''common misconceptions or challenges'', ''QA_Common-misconceptions''),
     (''vocabulary terms'', ''VA_Vocabulary-Terms''),
     (''definitions'', ''VA_Definitions''),
     (''special attention'', ''VA_Special-Attention''),
     (''teaching approaches'', ''IR_Teaching-Approaches''),
     (''scaffolding'', ''IR_Scaffolding''),
     (''sequencing'', ''IR_Sequencing'')]"
  by code_simp

lemma find_header_map_of:
  "find_header m h = map_of (map (\<lambda>p. (lower (fst p), snd p)) m) (lower h)"
  by (induction m h rule: find_header.induct) auto

lemma find_header_table:
  "find_header header_mapping h = map_of
    [(''required knowledge and skills'', ''QA_Knowledge-and-skills''),
     (''key vocabulary terms'', ''QA_Key-Vocabulary''),
     (''common misconceptions or challenges'', ''QA_Common-misconceptions''),
     (''vocabulary terms'', ''VA_Vocabulary-Terms''),
     (''definitions'', ''VA_Definitions''),
     (''special attention'', ''VA_Special-Attention''),
     (''teaching approaches'', ''IR_Teaching-Approaches''),
     (''scaffolding'', ''IR_Scaffolding''),
     (''sequencing'', ''IR_Sequencing'')] (lower h)"
  by (simp only: find_header_map_of lower_labels)

lemma lower_label_simps:
  "lower ''Required knowledge and skills'' = ''required knowledge and skills''"
  "lower ''Key vocabulary terms'' = ''key vocabulary terms''"
  "lower ''Common misconceptions or challenges'' = ''common misconceptions or challenges''"
  "lower ''Vocabulary Terms'' = ''vocabulary terms''"
  "lower ''Definitions'' = ''definitions''"
  "lower ''Special Attention'' = ''special attention''"
  "lower ''Teaching Approaches'' = ''teaching approaches''"
  "lower ''Scaffolding'' = ''scaffolding''"
  "lower ''Sequencing'' = ''sequencing''"
  using lower_labels by (simp_all add: header_mapping_def)

lemma lower_something_else: "lower ''Something Else'' = ''something else''"
  by code_simp

lemmas parser_eval =
  parse_analysis_output_def splitlines_def islinebreak_def loop_body_def strip_def
  isspace_def header_pattern_match_def header_group_def startswith_def find_header_table
  initial_result_eq csv_headers_def Let_def

section \<open>Concrete runs\<close>

lemma run_definitions_foo:
  "parse_analysis_output ''Definitions:\<newline>  foo '' =
   Inr [(''QA_Knowledge-and-skills'', []), (''QA_Key-Vocabulary'', []),
        (''QA_Common-misconceptions'', []), (''VA_Vocabulary-Terms'', []),
        (''VA_Definitions'', ''foo''), (''VA_Special-Attention'', []),
        (''IR_Teaching-Approaches'', []), (''IR_Scaffolding'', []),
        (''IR_Sequencing'', [])]"
  by code_simp

lemma lines_unrecognized: "splitlines ''Intro text\<newline>Something Else:\<newline>- bar\<newline>Definitions: none'' =
   [''Intro text'', ''Something Else:'', ''- bar'', ''Definitions: none'']"
  by code_simp

lemma no_label_intro: "\<not> names_label ''Intro text''" by code_simp
lemma no_label_something_else: "\<not> names_label ''Something Else:''" by code_simp
lemma no_label_bar: "\<not> names_label ''- bar''" by code_simp
lemma no_label_inline: "\<not> names_label ''Definitions: none''" by code_simp
lemma label_definitions_spaced: "names_label '' definitions :  ''" by code_simp

lemma run_empty:
  "parse_analysis_output [] =
     Inr [(''QA_Knowledge-and-skills'', []), (''QA_Key-Vocabulary'', []),
          (''QA_Common-misconceptions'', []), (''VA_Vocabulary-Terms'', []),
          (''VA_Definitions'', []), (''VA_Special-Attention'', []),
          (''IR_Teaching-Approaches'', []), (''IR_Scaffolding'', []),
          (''IR_Sequencing'', [])]"
  by (simp add: parse_analysis_output_def splitlines_def all_empty)

lemma run_lone_colon:
  "parse_analysis_output ''Definitions:\<newline>:'' =
     Inr [(''QA_Knowledge-and-skills'', []), (''QA_Key-Vocabulary'', []),
          (''QA_Common-misconceptions'', []), (''VA_Vocabulary-Terms'', []),
          (''VA_Definitions'', '':''), (''VA_Special-Attention'', []),
          (''IR_Teaching-Approaches'', []), (''IR_Scaffolding'', []),
          (''IR_Sequencing'', [])]"
  by code_simp

lemma lone_colon_no_match: "header_pattern_match (strip '':'') = None"
  by code_simp

lemma strip_lone_colon: "strip '':'' = '':''"
  by code_simp

lemma bulleted_label_unknown: "find_header header_mapping (strip ''- Definitions'') = None"
  by code_simp

lemma strip_bulleted_label: "strip ''- Definitions:'' = ''- Definitions'' @ '':''"
  by code_simp

lemma note_label_unknown:
  "lower (strip ''Note: see below'') \<notin> set (map (\<lambda>p. lower (fst p)) header_mapping)"
  by code_simp

lemma lines_note:
  "splitlines ''Definitions:\<newline>foo\<newline>Note: see below:\<newline>bar'' =
     [''Definitions:'', ''foo'', ''Note: see below:'', ''bar'']"
  by code_simp

lemma strip_note: "strip ''Note: see below:'' = ''Note: see below'' @ '':''"
  by code_simp

lemma run_repeated_definitions:
  "parse_analysis_output
     ''Definitions:\<newline>foo\<newline>Something Else:\<newline>bar\<newline>Definitions:\<newline>baz'' =
     Inr [(''QA_Knowledge-and-skills'', []), (''QA_Key-Vocabulary'', []),
          (''QA_Common-misconceptions'', []), (''VA_Vocabulary-Terms'', []),
          (''VA_Definitions'', ''foo\<newline>baz''), (''VA_Special-Attention'', []),
          (''IR_Teaching-Approaches'', []), (''IR_Scaffolding'', []),
          (''IR_Sequencing'', [])]"
  by (simp add: parser_eval lower_label_simps lower_something_else)

lemma run_repeated_each:
  "list_all (\<lambda>p. case parse_analysis_output
        (fst p @ '':\<newline>foo\<newline>Something Else:\<newline>bar\<newline>'' @ fst p @ '':\<newline>baz'') of
          Inl e \<Rightarrow> False
        | Inr r \<Rightarrow> map_of r (snd p) = Some ''foo\<newline>baz'') header_mapping"
  unfolding header_mapping_def list.pred_inject fst_conv snd_conv
  by (intro conjI TrueI; simp add: parser_eval lower_label_simps lower_something_else)

lemma scaffolding_in_mapping: "(''Scaffolding'', ''IR_Scaffolding'') \<in> set header_mapping"
  by (simp add: header_mapping_def)

lemma run_key_vocabulary:
  "parse_analysis_output ''Key vocabulary terms:\<newline>- apple\<newline>- banana'' =
     Inr [(''QA_Knowledge-and-skills'', []), (''QA_Key-Vocabulary'', ''apple\<newline>banana''),
          (''QA_Common-misconceptions'', []), (''VA_Vocabulary-Terms'', []),
          (''VA_Definitions'', []), (''VA_Special-Attention'', []),
          (''IR_Teaching-Approaches'', []), (''IR_Scaffolding'', []),
          (''IR_Sequencing'', [])]"
  by (simp add: parser_eval lower_label_simps)

lemma lines_key_vocabulary:
  "splitlines ''Key vocabulary terms:\<newline>- apple\<newline>- banana'' =
     [''Key vocabulary terms:'', ''- apple'', ''- banana'']"
  by (simp add: splitlines_def islinebreak_def)

lemma strip_banana: "strip ''- banana'' = ''- banana''"
  by (simp add: strip_def isspace_def)

lemma strip_tl_banana: "strip '' banana'' = ''banana''"
  by (simp add: strip_def isspace_def)

lemma run_term_meaning_each:
  "list_all (\<lambda>p. case parse_analysis_output (fst p @ '':\<newline>* term: meaning'') of
          Inl e \<Rightarrow> False
        | Inr r \<Rightarrow> map_of r (snd p) = Some ''term: meaning'') header_mapping"
  unfolding header_mapping_def list.pred_inject fst_conv snd_conv
  by (intro conjI TrueI; simp add: parser_eval lower_label_simps)

lemma strip_term_meaning: "strip ''* term: meaning'' = ''* term: meaning''"
  by (simp add: strip_def isspace_def)

lemma strip_tl_term_meaning: "strip '' term: meaning'' = ''term: meaning''"
  by (simp add: strip_def isspace_def)

lemma term_meaning_no_match: "header_pattern_match (strip ''* term: meaning'') = None"
  by (simp add: strip_term_meaning header_pattern_match_def header_group_def isspace_def)

lemma sequencing_in_mapping: "(''Sequencing'', ''IR_Sequencing'') \<in> set header_mapping"
  by (simp add: header_mapping_def)

lemma run_lone_dash:
  "parse_analysis_output ''Definitions:\<newline>foo\<newline>-\<newline>bar'' =
     Inr [(''QA_Knowledge-and-skills'', []), (''QA_Key-Vocabulary'', []),
          (''QA_Common-misconceptions'', []), (''VA_Vocabulary-Terms'', []),
          (''VA_Definitions'', ''foo\<newline>\<newline>bar''), (''VA_Special-Attention'', []),
          (''IR_Teaching-Approaches'', []), (''IR_Scaffolding'', []),
          (''IR_Sequencing'', [])]"
  by (simp add: parser_eval lower_label_simps)

lemma run_lone_star:
  "parse_analysis_output ''Definitions:\<newline>foo\<newline>*\<newline>bar'' =
     Inr [(''QA_Knowledge-and-skills'', []), (''QA_Key-Vocabulary'', []),
          (''QA_Common-misconceptions'', []), (''VA_Vocabulary-Terms'', []),
          (''VA_Definitions'', ''foo\<newline>\<newline>bar''), (''VA_Special-Attention'', []),
          (''IR_Teaching-Approaches'', []), (''IR_Scaffolding'', []),
          (''IR_Sequencing'', [])]"
  by (simp add: parser_eval lower_label_simps)

lemma run_blank_line:
  "parse_analysis_output ''Definitions:\<newline>foo\<newline>\<newline>bar'' =
     Inr [(''QA_Knowledge-and-skills'', []), (''QA_Key-Vocabulary'', []),
          (''QA_Common-misconceptions'', []), (''VA_Vocabulary-Terms'', []),
          (''VA_Definitions'', ''foo\<newline>bar''), (''VA_Special-Attention'', []),
          (''IR_Teaching-Approaches'', []), (''IR_Scaffolding'', []),
          (''IR_Sequencing'', [])]"
  by (simp add: parser_eval lower_label_simps)

lemma loop_body_lone_bullet:
  assumes "map_of pr k = Some v" "k \<noteq> []" "l = ''-'' \<or> l = ''*''"
  shows "loop_body (pr, Some k) l =
           Inr (AList.update k (if v = [] then [] else v @ [CHR 0x0A]) pr, Some k)"
proof -
  from assms(3) have n: "CHR 0x0A \<notin> set l" by auto
  from assms(3) have s: "strip l = l" by (auto simp: strip_def isspace_def)
  from assms(3) s have c: "strip l \<noteq> []" "last (strip l) \<noteq> CHR '':'' \<or> strip l = '':''"
    by auto
  from loop_body_content_line[OF n c assms(1,2)] assms(3) s
  show ?thesis by (auto simp: strip_Nil)
qed

section \<open>The claims\<close>

text \<open>
  C1. For every input string the parser returns a record with exactly the nine field
  keys, in the order of \<open>header_mapping\<close>, each bound to a string: no key is missing
  and no key is bound twice.
\<close>

theorem parse_has_nine_keys:
  "\<exists>r. parse_analysis_output s = Inr r \<and>
       map fst r =
         [''QA_Knowledge-and-skills'', ''QA_Key-Vocabulary'', ''QA_Common-misconceptions'',
          ''VA_Vocabulary-Terms'', ''VA_Definitions'', ''VA_Special-Attention'',
          ''IR_Teaching-Approaches'', ''IR_Scaffolding'', ''IR_Sequencing''] \<and>
       dom (map_of r) = set csv_headers \<and> length r = 9"
proof -
  from parse_returns[of s] obtain pr
    where p: "parse_analysis_output s = Inr (map (\<lambda>(k, v). (k, strip v)) pr)"
      and k: "map fst pr = csv_headers" by blast
  let ?r = "map (\<lambda>(k, v). (k, strip v)) pr"
  have f: "map fst ?r = csv_headers" using k by (simp add: comp_def case_prod_unfold)
  have "dom (map_of ?r) = set (map fst ?r)" by (simp only: dom_map_of_conv_image_fst set_map)
  then have d: "dom (map_of ?r) = set csv_headers" by (simp only: f)
  have "length ?r = length csv_headers" using f by (metis length_map)
  then have l: "length ?r = 9" by (simp add: csv_headers_def)
  show ?thesis
  proof (intro exI conjI)
    show "parse_analysis_output s = Inr ?r" by (rule p)
    show "map fst ?r =
         [''QA_Knowledge-and-skills'', ''QA_Key-Vocabulary'', ''QA_Common-misconceptions'',
          ''VA_Vocabulary-Terms'', ''VA_Definitions'', ''VA_Special-Attention'',
          ''IR_Teaching-Approaches'', ''IR_Scaffolding'', ''IR_Sequencing'']"
      by (rule f[unfolded csv_headers_def])
    show "dom (map_of ?r) = set csv_headers" by (rule d)
    show "length ?r = 9" by (rule l)
  qed
qed

text \<open>
  C2. The parser is total: on every input string, the empty one included, it raises no
  exception (the only one the body could raise is the \<open>KeyError\<close> of the dictionary
  read) and returns a record; on the empty input that record has nine empty values.
\<close>

theorem parse_never_raises:
  "(\<exists>r. parse_analysis_output s = Inr r) \<and> parse_analysis_output s \<noteq> Inl e \<and>
   parse_analysis_output [] =
     Inr [(''QA_Knowledge-and-skills'', []), (''QA_Key-Vocabulary'', []),
          (''QA_Common-misconceptions'', []), (''VA_Vocabulary-Terms'', []),
          (''VA_Definitions'', []), (''VA_Special-Attention'', []),
          (''IR_Teaching-Approaches'', []), (''IR_Scaffolding'', []),
          (''IR_Sequencing'', [])]"
proof -
  from parse_returns[of s] obtain r where "parse_analysis_output s = Inr r" by blast
  then show ?thesis using run_empty by simp
qed

text \<open>
  C3. When no line of the input is a recognized label followed by a colon (up to case
  and surrounding whitespace), the parser returns the record whose nine values are all
  empty; it is a normal return value, not an error.
\<close>

theorem no_recognized_header_all_empty:
  "\<forall>l\<in>set (splitlines s). \<not> names_label l \<Longrightarrow>
   parse_analysis_output s =
     Inr [(''QA_Knowledge-and-skills'', []), (''QA_Key-Vocabulary'', []),
          (''QA_Common-misconceptions'', []), (''VA_Vocabulary-Terms'', []),
          (''VA_Definitions'', []), (''VA_Special-Attention'', []),
          (''IR_Teaching-Approaches'', []), (''IR_Scaffolding'', []),
          (''IR_Sequencing'', [])]"
proof -
  assume a: "\<forall>l\<in>set (splitlines s). \<not> names_label l"
  then have "\<forall>l\<in>set (splitlines s). CHR 0x0A \<notin> set l \<and> \<not> names_label l"
    using splitlines_no_newline by blast
  then have "loop (initial_result, None) (splitlines s) = Inr (initial_result, None)"
    by (rule loop_no_label)
  then show ?thesis by (simp add: parse_analysis_output_def all_empty)
qed

theorem no_recognized_header_all_empty_witness:
  "parse_analysis_output ''Intro text\<newline>Something Else:\<newline>- bar\<newline>Definitions: none'' =
     Inr [(''QA_Knowledge-and-skills'', []), (''QA_Key-Vocabulary'', []),
          (''QA_Common-misconceptions'', []), (''VA_Vocabulary-Terms'', []),
          (''VA_Definitions'', []), (''VA_Special-Attention'', []),
          (''IR_Teaching-Approaches'', []), (''IR_Scaffolding'', []),
          (''IR_Sequencing'', [])]"
  by (rule no_recognized_header_all_empty) (simp add: lines_unrecognized no_label_intro no_label_something_else no_label_bar no_label_inline)


text \<open>
  C9. For every input string, every field value of the record that
  \<open>parse_analysis_output\<close> returns has no leading and no trailing whitespace, so
  trimming it once more leaves it as it is.
\<close>

theorem parsed_values_stripped:
  "parse_analysis_output s = Inr r \<Longrightarrow> (k, v) \<in> set r \<Longrightarrow>
     strip v = v \<and> (v = [] \<or> (\<not> isspace (hd v) \<and> \<not> isspace (last v)))"
proof -
  assume p: "parse_analysis_output s = Inr r" and m: "(k, v) \<in> set r"
  from p obtain pr :: record_dict where "r = map (\<lambda>(k, v). (k, strip v)) pr"
    by (auto simp: parse_analysis_output_def split: sum.splits)
  with m obtain v0 where v: "v = strip v0" by auto
  show ?thesis unfolding v using strip_idem hd_strip last_strip by blast
qed

theorem parsed_values_stripped_witness:
  "parse_analysis_output ''Definitions:\<newline>  foo '' =
   Inr [(''QA_Knowledge-and-skills'', []), (''QA_Key-Vocabulary'', []),
        (''QA_Common-misconceptions'', []), (''VA_Vocabulary-Terms'', []),
        (''VA_Definitions'', ''foo''), (''VA_Special-Attention'', []),
        (''IR_Teaching-Approaches'', []), (''IR_Scaffolding'', []),
        (''IR_Sequencing'', [])]
   \<and> strip ''foo'' = ''foo'' \<and> \<not> isspace (hd ''foo'') \<and> \<not> isspace (last ''foo'')"
proof -
  have m: "(''VA_Definitions'', ''foo'') \<in> set
       [(''QA_Knowledge-and-skills'', []), (''QA_Key-Vocabulary'', []),
        (''QA_Common-misconceptions'', []), (''VA_Vocabulary-Terms'', []),
        (''VA_Definitions'', ''foo''), (''VA_Special-Attention'', []),
        (''IR_Teaching-Approaches'', []), (''IR_Scaffolding'', []),
        (''IR_Sequencing'', [])]"
    by simp
  from parsed_values_stripped[OF run_definitions_foo m] run_definitions_foo
  show ?thesis by simp
qed

text \<open>
  C5, as stated, says that every line whose trimmed form ends in a colon is taken as a
  header. The pattern asks for at least one character before the colon, so the line
  \<open>:\<close> is not a header: under an open field it is appended as content.
\<close>

theorem lone_colon_is_content:
  "last (strip '':'') = CHR '':'' \<and> header_pattern_match (strip '':'') = None \<and>
   parse_analysis_output ''Definitions:\<newline>:'' =
     Inr [(''QA_Knowledge-and-skills'', []), (''QA_Key-Vocabulary'', []),
          (''QA_Common-misconceptions'', []), (''VA_Vocabulary-Terms'', []),
          (''VA_Definitions'', '':''), (''VA_Special-Attention'', []),
          (''IR_Teaching-Approaches'', []), (''IR_Scaffolding'', []),
          (''IR_Sequencing'', [])]"
  using run_lone_colon lone_colon_no_match by (simp add: strip_lone_colon)

text \<open>
  C5, amended. Every line of the input whose trimmed form is a non-empty text followed
  by a final colon is taken as a header: the dictionary is left as it is, and the
  current key becomes the field of the trimmed text, or none when the text is none of
  the nine labels up to case. The test comes before the bullet is removed, so
  \<open>- Definitions:\<close> sets the current key to none.
\<close>

theorem colon_line_is_header:
  "(l \<in> set (splitlines s) \<and> strip l = h @ '':'' \<and> h \<noteq> [] \<longrightarrow>
      loop_body (pr, ck) l = Inr (pr, find_header header_mapping (strip h)) \<and>
      (lower (strip h) \<notin> set (map (\<lambda>p. lower (fst p)) header_mapping) \<longrightarrow>
         loop_body (pr, ck) l = Inr (pr, None))) \<and>
   loop_body (pr, ck) ''- Definitions:'' = Inr (pr, None)"
proof (intro conjI impI)
  assume a: "l \<in> set (splitlines s) \<and> strip l = h @ '':'' \<and> h \<noteq> []"
  then have n: "CHR 0x0A \<notin> set l" using splitlines_no_newline by blast
  from a show b: "loop_body (pr, ck) l = Inr (pr, find_header header_mapping (strip h))"
    using loop_body_header_line[OF n] by blast
  assume "lower (strip h) \<notin> set (map (\<lambda>p. lower (fst p)) header_mapping)"
  then have "find_header header_mapping (strip h) = None"
    using find_header_None[of header_mapping "strip h"] by blast
  with b show "loop_body (pr, ck) l = Inr (pr, None)" by simp
next
  have "CHR 0x0A \<notin> set ''- Definitions:''" by simp
  from loop_body_header_line[OF this strip_bulleted_label]
  show "loop_body (pr, ck) ''- Definitions:'' = Inr (pr, None)"
    by (simp add: bulleted_label_unknown)
qed

theorem colon_line_is_header_witness:
  "loop_body (initial_result, Some ''VA_Definitions'') ''Note: see below:'' =
     Inr (initial_result, None)"
proof -
  have m: "''Note: see below:'' \<in>
      set (splitlines ''Definitions:\<newline>foo\<newline>Note: see below:\<newline>bar'')"
    by (simp add: lines_note)
  have ne: "''Note: see below'' \<noteq> []" by simp
  from colon_line_is_header[of "''Note: see below:''"
      "''Definitions:\<newline>foo\<newline>Note: see below:\<newline>bar''" "''Note: see below''"
      initial_result "Some ''VA_Definitions''"]
    m strip_note ne note_label_unknown
  show ?thesis by blast
qed

text \<open>
  C4. On the input of the specification the field \<open>VA_Definitions\<close> is \<open>foo\<close>, a
  newline, \<open>baz\<close>: the line under the unrecognized header \<open>Something Else:\<close> is
  dropped, and the second occurrence of the header appends to the value of the first.
  The same holds for each of the nine labels in place of \<open>Definitions\<close>.
\<close>

theorem repeated_header_appends:
  "parse_analysis_output
     ''Definitions:\<newline>foo\<newline>Something Else:\<newline>bar\<newline>Definitions:\<newline>baz'' =
     Inr [(''QA_Knowledge-and-skills'', []), (''QA_Key-Vocabulary'', []),
          (''QA_Common-misconceptions'', []), (''VA_Vocabulary-Terms'', []),
          (''VA_Definitions'', ''foo\<newline>baz''), (''VA_Special-Attention'', []),
          (''IR_Teaching-Approaches'', []), (''IR_Scaffolding'', []),
          (''IR_Sequencing'', [])] \<and>
   ((L, K) \<in> set header_mapping \<longrightarrow>
      (\<exists>r. parse_analysis_output
             (L @ '':\<newline>foo\<newline>Something Else:\<newline>bar\<newline>'' @ L @ '':\<newline>baz'') = Inr r \<and>
           map_of r K = Some ''foo\<newline>baz''))"
proof (intro conjI impI)
  show "parse_analysis_output
     ''Definitions:\<newline>foo\<newline>Something Else:\<newline>bar\<newline>Definitions:\<newline>baz'' =
     Inr [(''QA_Knowledge-and-skills'', []), (''QA_Key-Vocabulary'', []),
          (''QA_Common-misconceptions'', []), (''VA_Vocabulary-Terms'', []),
          (''VA_Definitions'', ''foo\<newline>baz''), (''VA_Special-Attention'', []),
          (''IR_Teaching-Approaches'', []), (''IR_Scaffolding'', []),
          (''IR_Sequencing'', [])]"
    by (rule run_repeated_definitions)
next
  assume m: "(L, K) \<in> set header_mapping"
  have "case parse_analysis_output
        (fst (L, K) @ '':\<newline>foo\<newline>Something Else:\<newline>bar\<newline>'' @ fst (L, K) @ '':\<newline>baz'') of
          Inl e \<Rightarrow> False
        | Inr r \<Rightarrow> map_of r (snd (L, K)) = Some ''foo\<newline>baz''"
    by (rule bspec[OF run_repeated_each[unfolded list_all_iff] m])
  then show "\<exists>r. parse_analysis_output
             (L @ '':\<newline>foo\<newline>Something Else:\<newline>bar\<newline>'' @ L @ '':\<newline>baz'') = Inr r \<and>
           map_of r K = Some ''foo\<newline>baz''"
    by (simp split: sum.splits)
qed

theorem repeated_header_appends_witness:
  "\<exists>r. parse_analysis_output
         (''Scaffolding'' @ '':\<newline>foo\<newline>Something Else:\<newline>bar\<newline>'' @ ''Scaffolding'' @ '':\<newline>baz'') = Inr r \<and>
       map_of r ''IR_Scaffolding'' = Some ''foo\<newline>baz''"
proof -
  note t = repeated_header_appends[of "''Scaffolding''" "''IR_Scaffolding''"]
  from t[THEN conjunct2, THEN mp, OF scaffolding_in_mapping] show ?thesis .
qed

text \<open>
  C6. On the input of the specification the field \<open>QA_Key-Vocabulary\<close> is \<open>apple\<close>, a
  newline, \<open>banana\<close>. In general a line of the input that is neither blank nor a header,
  met while the field \<open>k\<close> is open, loses one leading \<open>-\<close> or \<open>*\<close> and the whitespace
  after it, and is put after the value so far, with a newline between them when that
  value is not empty.
\<close>

theorem bulleted_lines_joined:
  "parse_analysis_output ''Key vocabulary terms:\<newline>- apple\<newline>- banana'' =
     Inr [(''QA_Knowledge-and-skills'', []), (''QA_Key-Vocabulary'', ''apple\<newline>banana''),
          (''QA_Common-misconceptions'', []), (''VA_Vocabulary-Terms'', []),
          (''VA_Definitions'', []), (''VA_Special-Attention'', []),
          (''IR_Teaching-Approaches'', []), (''IR_Scaffolding'', []),
          (''IR_Sequencing'', [])] \<and>
   (l \<in> set (splitlines s) \<and> strip l \<noteq> [] \<and> last (strip l) \<noteq> CHR '':'' \<and>
    map_of pr k = Some v \<and> k \<noteq> [] \<longrightarrow>
      loop_body (pr, Some k) l =
        Inr (AList.update k
              (if v = [] then (if hd (strip l) = CHR ''-'' \<or> hd (strip l) = CHR ''*''
                               then strip (tl (strip l)) else strip l)
               else v @ [CHR 0x0A] @ (if hd (strip l) = CHR ''-'' \<or> hd (strip l) = CHR ''*''
                                     then strip (tl (strip l)) else strip l)) pr, Some k))"
proof (intro conjI impI)
  show "parse_analysis_output ''Key vocabulary terms:\<newline>- apple\<newline>- banana'' =
     Inr [(''QA_Knowledge-and-skills'', []), (''QA_Key-Vocabulary'', ''apple\<newline>banana''),
          (''QA_Common-misconceptions'', []), (''VA_Vocabulary-Terms'', []),
          (''VA_Definitions'', []), (''VA_Special-Attention'', []),
          (''IR_Teaching-Approaches'', []), (''IR_Scaffolding'', []),
          (''IR_Sequencing'', [])]"
    by (rule run_key_vocabulary)
next
  assume a: "l \<in> set (splitlines s) \<and> strip l \<noteq> [] \<and> last (strip l) \<noteq> CHR '':'' \<and>
    map_of pr k = Some v \<and> k \<noteq> []"
  then have n: "CHR 0x0A \<notin> set l" using splitlines_no_newline by blast
  from a have "last (strip l) \<noteq> CHR '':'' \<or> strip l = '':''" by blast
  with a n show "loop_body (pr, Some k) l =
        Inr (AList.update k
              (if v = [] then (if hd (strip l) = CHR ''-'' \<or> hd (strip l) = CHR ''*''
                               then strip (tl (strip l)) else strip l)
               else v @ [CHR 0x0A] @ (if hd (strip l) = CHR ''-'' \<or> hd (strip l) = CHR ''*''
                                     then strip (tl (strip l)) else strip l)) pr, Some k)"
    by (intro loop_body_content_line) blast+
qed

theorem bulleted_lines_joined_witness:
  "loop_body ([(''QA_Key-Vocabulary'', ''apple'')], Some ''QA_Key-Vocabulary'') ''- banana'' =
     Inr ([(''QA_Key-Vocabulary'', ''apple\<newline>banana'')], Some ''QA_Key-Vocabulary'')"
proof -
  have m: "''- banana'' \<in> set (splitlines ''Key vocabulary terms:\<newline>- apple\<newline>- banana'')"
    by (simp add: lines_key_vocabulary)
  have h: "''- banana'' \<in> set (splitlines ''Key vocabulary terms:\<newline>- apple\<newline>- banana'') \<and>
      strip ''- banana'' \<noteq> [] \<and> last (strip ''- banana'') \<noteq> CHR '':'' \<and>
      map_of [(''QA_Key-Vocabulary'', ''apple'')] ''QA_Key-Vocabulary'' = Some ''apple'' \<and>
      ''QA_Key-Vocabulary'' \<noteq> []"
    using m by (simp add: strip_banana)
  note t = bulleted_lines_joined[of "''- banana''"
      "''Key vocabulary terms:\<newline>- apple\<newline>- banana''"
      "[(''QA_Key-Vocabulary'', ''apple'')]" "''QA_Key-Vocabulary''" "''apple''"]
  from t[THEN conjunct2, THEN mp, OF h] show ?thesis
    by (simp add: strip_banana strip_tl_banana)
qed


text \<open>
  C7. The line \<open>* term: meaning\<close> under any of the nine headers is stored as
  \<open>term: meaning\<close>: it does not end in a colon, so the pattern does not match it, and
  only the bullet and the whitespace after it are removed.
\<close>

theorem inner_colon_is_content:
  "((L, K) \<in> set header_mapping \<longrightarrow>
      (\<exists>r. parse_analysis_output (L @ '':\<newline>* term: meaning'') = Inr r \<and>
           map_of r K = Some ''term: meaning'')) \<and>
   header_pattern_match (strip ''* term: meaning'') = None \<and>
   (map_of pr k = Some v \<and> k \<noteq> [] \<longrightarrow>
      loop_body (pr, Some k) ''* term: meaning'' =
        Inr (AList.update k (if v = [] then ''term: meaning''
                             else v @ [CHR 0x0A] @ ''term: meaning'') pr, Some k))"
proof (intro conjI impI)
  assume m: "(L, K) \<in> set header_mapping"
  have "case parse_analysis_output (fst (L, K) @ '':\<newline>* term: meaning'') of
          Inl e \<Rightarrow> False
        | Inr r \<Rightarrow> map_of r (snd (L, K)) = Some ''term: meaning''"
    by (rule bspec[OF run_term_meaning_each[unfolded list_all_iff] m])
  then show "\<exists>r. parse_analysis_output (L @ '':\<newline>* term: meaning'') = Inr r \<and>
           map_of r K = Some ''term: meaning''"
    by (simp split: sum.splits)
next
  show "header_pattern_match (strip ''* term: meaning'') = None"
    by (rule term_meaning_no_match)
next
  assume a: "map_of pr k = Some v \<and> k \<noteq> []"
  have n: "CHR 0x0A \<notin> set ''* term: meaning''" by simp
  have s: "strip ''* term: meaning'' \<noteq> []" by (simp add: strip_term_meaning)
  have c: "last (strip ''* term: meaning'') \<noteq> CHR '':'' \<or> strip ''* term: meaning'' = '':''"
    by (simp add: strip_term_meaning)
  from a have v: "map_of pr k = Some v" and k: "k \<noteq> []" by blast+
  from loop_body_content_line[OF n s c v k]
  show "loop_body (pr, Some k) ''* term: meaning'' =
        Inr (AList.update k (if v = [] then ''term: meaning''
                             else v @ [CHR 0x0A] @ ''term: meaning'') pr, Some k)"
    by (simp add: strip_term_meaning strip_tl_term_meaning)
qed

theorem inner_colon_is_content_witness:
  "(\<exists>r. parse_analysis_output (''Sequencing'' @ '':\<newline>* term: meaning'') = Inr r \<and>
        map_of r ''IR_Sequencing'' = Some ''term: meaning'') \<and>
   loop_body ([(''IR_Sequencing'', ''first'')], Some ''IR_Sequencing'') ''* term: meaning'' =
     Inr ([(''IR_Sequencing'', ''first\<newline>term: meaning'')], Some ''IR_Sequencing'')"
proof -
  note t = inner_colon_is_content[of "''Sequencing''" "''IR_Sequencing''"
      "[(''IR_Sequencing'', ''first'')]" "''IR_Sequencing''" "''first''"]
  have h: "map_of [(''IR_Sequencing'', ''first'')] ''IR_Sequencing'' = Some ''first'' \<and>
           ''IR_Sequencing'' \<noteq> []" by simp
  from t[THEN conjunct1, THEN mp, OF sequencing_in_mapping]
       t[THEN conjunct2, THEN conjunct2, THEN mp, OF h]
  show ?thesis by simp
qed

text \<open>
  C10. A line that is only a bullet marker, met while a field with a non-empty value is
  open, appends a newline and the empty text: on the input of the claim the field
  \<open>VA_Definitions\<close> is \<open>foo\<close>, two newlines, \<open>bar\<close>, whereas a blank line in the same
  place leaves no trace.
\<close>

theorem lone_bullet_appends_empty_segment:
  "parse_analysis_output ''Definitions:\<newline>foo\<newline>-\<newline>bar'' =
     Inr [(''QA_Knowledge-and-skills'', []), (''QA_Key-Vocabulary'', []),
          (''QA_Common-misconceptions'', []), (''VA_Vocabulary-Terms'', []),
          (''VA_Definitions'', ''foo\<newline>\<newline>bar''), (''VA_Special-Attention'', []),
          (''IR_Teaching-Approaches'', []), (''IR_Scaffolding'', []),
          (''IR_Sequencing'', [])] \<and>
   parse_analysis_output ''Definitions:\<newline>foo\<newline>*\<newline>bar'' =
     parse_analysis_output ''Definitions:\<newline>foo\<newline>-\<newline>bar'' \<and>
   parse_analysis_output ''Definitions:\<newline>foo\<newline>\<newline>bar'' =
     Inr [(''QA_Knowledge-and-skills'', []), (''QA_Key-Vocabulary'', []),
          (''QA_Common-misconceptions'', []), (''VA_Vocabulary-Terms'', []),
          (''VA_Definitions'', ''foo\<newline>bar''), (''VA_Special-Attention'', []),
          (''IR_Teaching-Approaches'', []), (''IR_Scaffolding'', []),
          (''IR_Sequencing'', [])] \<and>
   (map_of pr k = Some v \<and> k \<noteq> [] \<and> v \<noteq> [] \<and> (l = ''-'' \<or> l = ''*'') \<longrightarrow>
      loop_body (pr, Some k) l = Inr (AList.update k (v @ [CHR 0x0A] @ []) pr, Some k))"
proof (intro conjI impI)
  assume a: "map_of pr k = Some v \<and> k \<noteq> [] \<and> v \<noteq> [] \<and> (l = ''-'' \<or> l = ''*'')"
  then have "loop_body (pr, Some k) l =
           Inr (AList.update k (if v = [] then [] else v @ [CHR 0x0A]) pr, Some k)"
    by (intro loop_body_lone_bullet) blast+
  with a show "loop_body (pr, Some k) l = Inr (AList.update k (v @ [CHR 0x0A] @ []) pr, Some k)"
    by simp
qed (simp_all only: run_lone_dash run_lone_star run_blank_line)

theorem lone_bullet_appends_empty_segment_witness:
  "loop_body ([(''VA_Definitions'', ''foo'')], Some ''VA_Definitions'') ''-'' =
     Inr ([(''VA_Definitions'', ''foo\<newline>'')], Some ''VA_Definitions'')"
proof -
  note t = lone_bullet_appends_empty_segment[of "[(''VA_Definitions'', ''foo'')]"
      "''VA_Definitions''" "''foo''" "''-''"]
  have h: "map_of [(''VA_Definitions'', ''foo'')] ''VA_Definitions'' = Some ''foo'' \<and>
      ''VA_Definitions'' \<noteq> [] \<and> ''foo'' \<noteq> [] \<and> (''-'' = ''-'' \<or> ''-'' = ''*'')"
    by simp
  from t[THEN conjunct2, THEN conjunct2, THEN conjunct2, THEN mp, OF h]
  show ?thesis by simp
qed

end
